theory Spec2Isabelle
  imports Complex_Main "HOL-Library.Word" "HOL-Library.Char_ord" "HOL-Library.List_Lexorder"
begin

section \<open>The scripting engine's values\<close>

text \<open>
  The value bridge (\<^verbatim>\<open>lua_yue/binding_values.cc\<close>) and the object marshaller
  (\<^verbatim>\<open>lua/metatable.h\<close>) talk to the Lua C API. This section fixes the part of that API
  the two files use.

  A \<^verbatim>\<open>lua_Integer\<close> is a 64-bit two's complement integer, a C++ \<^verbatim>\<open>int\<close> a 32-bit one and
  \<^verbatim>\<open>size_t\<close> an unsigned 64-bit one; a \<^verbatim>\<open>lua_Number\<close> (a double) is modelled by the real
  number it denotes, since the bridge only carries it. A Lua string is a byte sequence
  with its length (it may contain the zero byte). A table is given by the sequence of
  (key, value) pairs that \<^verbatim>\<open>lua_next\<close> enumerates, in that order.
\<close>

type_synonym lua_Integer = "64 word"

type_synonym cint = "32 word"

type_synonym size_t = "64 word"

datatype LuaType =
    LuaType_Nil
  | LuaType_Boolean
  | LuaType_LightUserData
  | LuaType_Number
  | LuaType_String
  | LuaType_Table
  | LuaType_Function
  | LuaType_UserData
  | LuaType_Thread

datatype lua_value =
    LNil
  | LBoolean bool
  | LLightUserData nat
  | LInteger lua_Integer
  | LFloat real
  | LString string
  | LTable "(lua_value \<times> lua_value) list"
  | LFunction nat
  | LUserData nat
  | LThread nat

type_synonym lua_table = "(lua_value \<times> lua_value) list"

fun GetType :: "lua_value \<Rightarrow> LuaType" where
  "GetType LNil = LuaType_Nil"
| "GetType (LBoolean b) = LuaType_Boolean"
| "GetType (LLightUserData p) = LuaType_LightUserData"
| "GetType (LInteger i) = LuaType_Number"
| "GetType (LFloat d) = LuaType_Number"
| "GetType (LString s) = LuaType_String"
| "GetType (LTable t) = LuaType_Table"
| "GetType (LFunction f) = LuaType_Function"
| "GetType (LUserData a) = LuaType_UserData"
| "GetType (LThread c) = LuaType_Thread"

fun lua_isinteger :: "lua_value \<Rightarrow> bool" where
  "lua_isinteger (LInteger i) = True"
| "lua_isinteger v = False"

text \<open>
  \<^verbatim>\<open>lua_tointeger\<close>: an integer is returned as it is; a float converts when it has an exact
  integer value in the range of \<^verbatim>\<open>lua_Integer\<close>; everything else gives 0. (The bridge calls
  it on slots of type number only, so the conversion of numeric strings is left out.)
\<close>

fun lua_tointeger :: "lua_value \<Rightarrow> lua_Integer" where
  "lua_tointeger (LInteger i) = i"
| "lua_tointeger (LFloat d) =
     (if d = of_int \<lfloor>d\<rfloor> \<and> - (2 ^ 63) \<le> \<lfloor>d\<rfloor> \<and> \<lfloor>d\<rfloor> < 2 ^ 63 then word_of_int \<lfloor>d\<rfloor> else 0)"
| "lua_tointeger v = 0"

fun lua_tonumber :: "lua_value \<Rightarrow> real" where
  "lua_tonumber (LFloat d) = d"
| "lua_tonumber (LInteger i) = of_int (sint i)"
| "lua_tonumber v = 0"

text \<open>\<^verbatim>\<open>lua_toboolean\<close> returns a C \<^verbatim>\<open>int\<close>: 0 for \<^verbatim>\<open>false\<close> and \<^verbatim>\<open>nil\<close>, 1 otherwise.\<close>

fun lua_toboolean :: "lua_value \<Rightarrow> cint" where
  "lua_toboolean LNil = 0"
| "lua_toboolean (LBoolean b) = (if b then 1 else 0)"
| "lua_toboolean v = 1"

text \<open>
  \<^verbatim>\<open>lua_tostring\<close> on a string slot returns a pointer to its bytes, which Lua terminates
  with a zero byte. A reader that takes the \<^verbatim>\<open>const char*\<close> without the length sees the
  bytes before the first zero byte: \<open>c_str\<close>.
\<close>

fun lua_tostring :: "lua_value \<Rightarrow> string" where
  "lua_tostring (LString s) = s"
| "lua_tostring v = []"

definition c_str :: "string \<Rightarrow> string" where
  "c_str s = takeWhile (\<lambda>c. c \<noteq> CHR 0x00) s"

text \<open>
  \<^verbatim>\<open>lua_rawset\<close> on a table: storing \<^verbatim>\<open>nil\<close> removes the key; storing under a key the table
  has replaces the value in place; a new key is enumerated after the keys already there
  (the bridge stores string keys, and integer keys \<open>1, 2, ...\<close> into a table
  pre-sized for them, which \<^verbatim>\<open>lua_next\<close> visits in index order).
\<close>

fun lua_rawset :: "lua_table \<Rightarrow> lua_value \<Rightarrow> lua_value \<Rightarrow> lua_table" where
  "lua_rawset [] k v = (if v = LNil then [] else [(k, v)])"
| "lua_rawset ((k', v') # t) k v =
     (if k' = k then (if v = LNil then t else (k, v) # t)
      else (k', v') # lua_rawset t k v)"

section \<open>The dynamic value\<close>

text \<open>
  \<^verbatim>\<open>base::Value\<close>: a tagged union. An integer is a C++ \<^verbatim>\<open>int\<close>; a blob is a byte vector;
  a dictionary is a flat map, a vector of (key, value) pairs kept sorted by key with no
  key twice, which \<open>Dict_Set\<close> maintains.
\<close>

datatype Value =
    NONE
  | BOOLEAN bool
  | INTEGER cint
  | DOUBLE real
  | STRING string
  | BINARY string
  | DICT "(string \<times> Value) list"
  | LIST "Value list"

fun Dict_Set :: "string \<Rightarrow> Value \<Rightarrow> (string \<times> Value) list \<Rightarrow> (string \<times> Value) list" where
  "Dict_Set k v [] = [(k, v)]"
| "Dict_Set k v ((k', v') # d) =
     (if k < k' then (k, v) # (k', v') # d
      else if k = k' then (k, v) # d
      else (k', v') # Dict_Set k v d)"

section \<open>The value bridge: \<^verbatim>\<open>Type<base::Value>\<close>\<close>

subsection \<open>Push\<close>

text \<open>
  \<^verbatim>\<open>Type<base::Value>::Push\<close> leaves one new value on the stack; \<open>Value_Push\<close> computes
  that value. The two loops build the table created by \<^verbatim>\<open>NewTable\<close> with one
  \<^verbatim>\<open>lua_rawset\<close> per entry. The list loop counts with a \<^verbatim>\<open>size_t\<close> and pushes
  \<^verbatim>\<open>static_cast<int>(i + 1)\<close>, which \<^verbatim>\<open>lua_pushinteger\<close> widens to a \<^verbatim>\<open>lua_Integer\<close>.
\<close>

definition int_of_size_t :: "size_t \<Rightarrow> cint" where
  "int_of_size_t n = ucast n"

definition lua_Integer_of_int :: "cint \<Rightarrow> lua_Integer" where
  "lua_Integer_of_int i = scast i"

definition int_of_lua_Integer :: "lua_Integer \<Rightarrow> cint" where
  "int_of_lua_Integer i = ucast i"

fun Value_Push :: "Value \<Rightarrow> lua_value"
  and Push_DICT :: "(string \<times> Value) list \<Rightarrow> lua_table \<Rightarrow> lua_table"
  and Push_LIST :: "Value list \<Rightarrow> size_t \<Rightarrow> lua_table \<Rightarrow> lua_table" where
  "Value_Push NONE = LNil"
| "Value_Push (BOOLEAN b) = LBoolean b"
| "Value_Push (INTEGER i) = LInteger (lua_Integer_of_int i)"
| "Value_Push (DOUBLE d) = LFloat d"
| "Value_Push (STRING s) = LString s"
| "Value_Push (BINARY b) = LString b"
| "Value_Push (DICT d) = LTable (Push_DICT d [])"
| "Value_Push (LIST l) = LTable (Push_LIST l 0 [])"
| "Push_DICT [] t = t"
| "Push_DICT ((k, v) # d) t = Push_DICT d (lua_rawset t (LString k) (Value_Push v))"
| "Push_LIST [] i t = t"
| "Push_LIST (v # l) i t =
     Push_LIST l (i + 1)
       (lua_rawset t (LInteger (lua_Integer_of_int (int_of_size_t (i + 1)))) (Value_Push v))"

subsection \<open>To\<close>

text \<open>
  \<open>IsTableArray\<close>: the loop over \<^verbatim>\<open>lua_next\<close>, with the counter \<^verbatim>\<open>*size\<close> as \<open>sz\<close>. It returns the
  answer and the counter.
\<close>

fun IsTableArray_loop :: "lua_table \<Rightarrow> size_t \<Rightarrow> bool \<times> size_t" where
  "IsTableArray_loop [] sz = (True, sz)"
| "IsTableArray_loop ((k, v) # t) sz =
     (if GetType k \<noteq> LuaType_Number \<or>
         lua_tointeger k \<noteq> lua_Integer_of_int (int_of_size_t (sz + 1))
      then (False, sz)
      else IsTableArray_loop t (sz + 1))"

definition IsTableArray :: "lua_table \<Rightarrow> bool \<times> size_t" where
  "IsTableArray t = IsTableArray_loop t 0"

text \<open>
  Modelled from the spec: \<^verbatim>\<open>lua::To\<close> for \<^verbatim>\<open>std::string\<close> (in \<^verbatim>\<open>lua/types.h\<close>, which is not
  among the sources). The spec has a non-string key fail the conversion, so the reader
  accepts string slots only.
\<close>

fun string_To :: "lua_value \<Rightarrow> string option" where
  "string_To (LString s) = Some s"
| "string_To v = None"

text \<open>
  \<open>Value_To v out\<close> is \<^verbatim>\<open>Type<base::Value>::To\<close> on a slot holding \<open>v\<close>, with \<open>out\<close> the
  value \<^verbatim>\<open>*out\<close> held before the call; it returns the boolean and \<^verbatim>\<open>*out\<close> after the call.
  In the boolean case \<^verbatim>\<open>lua_toboolean\<close> hands a C \<^verbatim>\<open>int\<close> to \<^verbatim>\<open>base::Value\<close>'s constructor,
  so the overload taken is \<^verbatim>\<open>Value(int)\<close>. In the string case the constructor gets a
  \<^verbatim>\<open>const char*\<close>.

  \<open>To_DICT\<close> is the mapping loop, on the entries \<^verbatim>\<open>lua_next\<close> still has to visit and the
  dictionary \<^verbatim>\<open>*out\<close> holds so far. \<open>To_vector\<close> is \<^verbatim>\<open>lua::To\<close> for
  \<^verbatim>\<open>std::vector<base::Value>\<close>. Modelled from the spec: that function is in
  \<^verbatim>\<open>lua/types.h\<close>, not among the sources; the spec converts containers recursively, so
  it reads the elements in order with \<open>Value_To\<close>, each into a fresh value, and fails
  when one of them fails.
\<close>

fun Value_To :: "lua_value \<Rightarrow> Value \<Rightarrow> bool \<times> Value"
  and To_DICT :: "lua_table \<Rightarrow> (string \<times> Value) list \<Rightarrow> bool \<times> Value"
  and To_vector :: "lua_table \<Rightarrow> Value list \<Rightarrow> (Value list) option" where
  "Value_To LNil out = (True, NONE)"
| "Value_To (LBoolean b) out = (True, INTEGER (lua_toboolean (LBoolean b)))"
| "Value_To (LLightUserData p) out = (True, NONE)"
| "Value_To (LInteger i) out = (True, INTEGER (int_of_lua_Integer (lua_tointeger (LInteger i))))"
| "Value_To (LFloat d) out = (True, DOUBLE (lua_tonumber (LFloat d)))"
| "Value_To (LString s) out = (True, STRING (c_str (lua_tostring (LString s))))"
| "Value_To (LTable t) out =
     (if fst (IsTableArray t)
      then (case To_vector t [] of
              None \<Rightarrow> (False, out)
            | Some list \<Rightarrow> (True, LIST list))
      else To_DICT t [])"
| "Value_To (LFunction f) out = (True, NONE)"
| "Value_To (LUserData a) out = (True, NONE)"
| "Value_To (LThread c) out = (True, NONE)"
| "To_DICT [] d = (True, DICT d)"
| "To_DICT ((k, v) # t) d =
     (case string_To k of
        None \<Rightarrow> (False, DICT d)
      | Some key \<Rightarrow>
          (case Value_To v NONE of
             (False, value) \<Rightarrow> (False, DICT d)
           | (True, value) \<Rightarrow> To_DICT t (Dict_Set (c_str key) value d)))"
| "To_vector [] acc = Some acc"
| "To_vector ((k, v) # t) acc =
     (case Value_To v NONE of
        (False, value) \<Rightarrow> None
      | (True, value) \<Rightarrow> To_vector t (acc @ [value]))"

subsection \<open>Notions the statements use\<close>

text \<open>
  Lua stores a float key that has an exact integer value as that integer, and never a
  \<^verbatim>\<open>nil\<close> key; \<open>normal_key\<close> says so of a key.
\<close>

fun normal_key :: "lua_value \<Rightarrow> bool" where
  "normal_key LNil = False"
| "normal_key (LFloat d) = (\<not> (d = of_int \<lfloor>d\<rfloor> \<and> - (2 ^ 63) \<le> \<lfloor>d\<rfloor> \<and> \<lfloor>d\<rfloor> < 2 ^ 63))"
| "normal_key k = True"

text \<open>The keys \<open>m, m + 1, ...\<close> (\<open>len\<close> of them) as Lua integers.\<close>

definition run_from :: "nat \<Rightarrow> nat \<Rightarrow> lua_value list" where
  "run_from m len = map (\<lambda>i. LInteger (of_nat i)) [m ..< m + len]"

text \<open>The table entry that the dictionary loop of \<open>Value_Push\<close> stores for a dictionary entry.\<close>

definition entry :: "string \<times> Value \<Rightarrow> lua_value \<times> lua_value" where
  "entry e = (LString (fst e), Value_Push (snd e))"

text \<open>
  The values that the bridge carries both ways unchanged: no boolean and no blob
  anywhere; no zero byte in a string or in a dictionary key; no \<open>NONE\<close> as a list
  element or as a dictionary value; no empty dictionary; every dictionary a flat map
  (keys strictly increasing); every list shorter than \<open>2 ^ 31\<close>.
\<close>

fun two_way :: "Value \<Rightarrow> bool"
  and two_way_DICT :: "(string \<times> Value) list \<Rightarrow> bool"
  and two_way_LIST :: "Value list \<Rightarrow> bool" where
  "two_way NONE = True"
| "two_way (BOOLEAN b) = False"
| "two_way (INTEGER i) = True"
| "two_way (DOUBLE d) = True"
| "two_way (STRING s) = (CHR 0x00 \<notin> set s)"
| "two_way (BINARY b) = False"
| "two_way (DICT d) = (d \<noteq> [] \<and> sorted_wrt (<) (map fst d) \<and> two_way_DICT d)"
| "two_way (LIST l) = (length l < 2 ^ 31 \<and> two_way_LIST l)"
| "two_way_DICT [] = True"
| "two_way_DICT ((k, v) # d) = (CHR 0x00 \<notin> set k \<and> v \<noteq> NONE \<and> two_way v \<and> two_way_DICT d)"
| "two_way_LIST [] = True"
| "two_way_LIST (v # l) = (v \<noteq> NONE \<and> two_way v \<and> two_way_LIST l)"

text \<open>
  What the loops of \<open>Value_To\<close> make of a table entry: whether the value converts, into
  a fresh output as in the loops; the value it converts to; and the dictionary entry read
  from a table entry with a string key.
\<close>

definition converts :: "lua_value \<Rightarrow> bool" where
  "converts v = fst (Value_To v NONE)"

definition converted :: "lua_value \<Rightarrow> Value" where
  "converted v = snd (Value_To v NONE)"

definition read_entry :: "lua_value \<times> lua_value \<Rightarrow> string \<times> Value" where
  "read_entry e = (c_str (lua_tostring (fst e)), converted (snd e))"

section \<open>The native object marshaller: \<^verbatim>\<open>lua/metatable.h\<close>\<close>

subsection \<open>Native objects, userdata and the state\<close>

text \<open>
  A native pointer is an address, 0 for \<^verbatim>\<open>nullptr\<close>. The state holds what the marshaller
  reads and writes: the Lua stack (bottom first, so index 1 is the first element and
  index \<open>-1\<close> the last), the userdata blocks by address with the next free address, the
  wrapper table, and of the native side the reference count of every object and whether
  it is still alive. No garbage collection step is modelled: nothing is released.
\<close>

type_synonym ptr = nat

abbreviation (input) nullptr :: ptr where "nullptr \<equiv> 0"

text \<open>
  Modelled from the spec: the metatable that \<^verbatim>\<open>internal::InheritanceChain<T>::Push\<close> pushes
  (\<^verbatim>\<open>lua/metatable_internal.h\<close> is not among the sources). Of a metatable the marshaller
  reads the \<^verbatim>\<open>__name\<close> field and, when the metatable has a metatable of its own, the
  table under that one's \<^verbatim>\<open>__index\<close>: the metatable of the base class. The chain of
  ancestors is finite.
\<close>

datatype MetaTable = MetaTable (name_field: "string option") (base_of: "MetaTable option")

text \<open>
  The bytes of a userdata block hold \<^verbatim>\<open>UserData<T>::Type\<close>: a \<^verbatim>\<open>T*\<close> for a reference-counted
  class, a \<^verbatim>\<open>base::WeakPtr<T>\<close> for a class with weak pointers. \<^verbatim>\<open>RawLen\<close> is the size of
  the block, \<^verbatim>\<open>sizeof(T*)\<close> or \<^verbatim>\<open>sizeof(base::WeakPtr<T>)\<close> (8 and 16 bytes on a 64-bit
  target).
\<close>

datatype block = RefCountedData ptr | WeakPtrData ptr

record userdata =
  block :: block
  metatable :: "MetaTable option"

record State =
  stack :: "lua_value list"
  heap :: "nat \<rightharpoonup> userdata"
  next_addr :: nat
  wrappers :: "ptr \<rightharpoonup> nat"
  ref_count :: "ptr \<Rightarrow> nat"
  alive :: "ptr \<Rightarrow> bool"

text \<open>What the templates know of a class \<open>T\<close>: \<^verbatim>\<open>Type<T>::name\<close> and its metatable.\<close>

record class_info =
  type_name :: string
  chain :: MetaTable

definition sizeof_ptr :: nat where "sizeof_ptr = 8"

definition sizeof_WeakPtr :: nat where "sizeof_WeakPtr = 16"

fun RawLen :: "userdata \<Rightarrow> nat" where
  "RawLen u = (case block u of RefCountedData p \<Rightarrow> sizeof_ptr | WeakPtrData p \<Rightarrow> sizeof_WeakPtr)"

text \<open>
  \<^verbatim>\<open>AbsIndex\<close> and the value in a slot; \<open>None\<close> stands for an index outside the stack,
  whose type is \<^verbatim>\<open>LUA_TNONE\<close>.
\<close>

definition AbsIndex :: "State \<Rightarrow> int \<Rightarrow> int" where
  "AbsIndex s index = (if 0 < index then index else int (length (stack s)) + index + 1)"

definition slot :: "State \<Rightarrow> int \<Rightarrow> lua_value option" where
  "slot s index =
     (if 1 \<le> index \<and> index \<le> int (length (stack s)) then Some (stack s ! nat (index - 1)) else None)"

definition PushNil :: "State \<Rightarrow> State" where
  "PushNil s = s\<lparr>stack := stack s @ [LNil]\<rparr>"

subsection \<open>\<^verbatim>\<open>UserData<T>\<close>\<close>

text \<open>
  \<^verbatim>\<open>Construct\<close> for a reference-counted class calls \<^verbatim>\<open>AddRef\<close> and stores the pointer; for
  a class with weak pointers it stores \<^verbatim>\<open>ptr->GetWeakPtr()\<close>. On a null \<^verbatim>\<open>ptr\<close> that call
  dereferences the null pointer: the behaviour is undefined and \<open>WeakPtr_Construct\<close> has
  no result, \<open>None\<close>. (\<^verbatim>\<open>Push\<close> for a reference-counted class never hands a null pointer
  to its \<^verbatim>\<open>Construct\<close>.) \<^verbatim>\<open>From\<close> returns the stored pointer, for a weak pointer \<^verbatim>\<open>get()\<close>:
  null once the object is destroyed.
\<close>

definition RefCounted_Construct :: "ptr \<Rightarrow> State \<Rightarrow> block \<times> State" where
  "RefCounted_Construct p s = (RefCountedData p, s\<lparr>ref_count := (ref_count s)(p := ref_count s p + 1)\<rparr>)"

definition WeakPtr_Construct :: "ptr \<Rightarrow> State \<Rightarrow> (block \<times> State) option" where
  "WeakPtr_Construct p s = (if p = nullptr then None else Some (WeakPtrData p, s))"

fun UserData_From :: "State \<Rightarrow> block \<Rightarrow> ptr" where
  "UserData_From s (RefCountedData p) = p"
| "UserData_From s (WeakPtrData p) = (if p \<noteq> nullptr \<and> alive s p then p else nullptr)"

text \<open>
  Modelled from the spec: \<^verbatim>\<open>NewUserData\<close>, \<^verbatim>\<open>internal::WrapperTableGet\<close> and
  \<^verbatim>\<open>internal::WrapperTableSet\<close> (\<^verbatim>\<open>lua/metatable_internal.h\<close>, not among the sources).
  \<^verbatim>\<open>NewUserData\<close> allocates a block, runs \<^verbatim>\<open>Construct\<close> on it and pushes it. The side table
  is keyed by pointer identity: \<^verbatim>\<open>WrapperTableGet\<close> pushes the recorded wrapper and
  returns true on a hit, and pushes nothing and returns false on a miss;
  \<^verbatim>\<open>WrapperTableSet\<close> records the userdata in the given slot under the pointer.
  \<open>SetMetaTable m\<close> is \<^verbatim>\<open>InheritanceChain<T>::Push(state); SetMetaTable(state, -2)\<close>: it
  makes \<open>m\<close> the metatable of the userdata on top of the stack.
\<close>

definition NewUserData :: "(ptr \<Rightarrow> State \<Rightarrow> block \<times> State) \<Rightarrow> ptr \<Rightarrow> State \<Rightarrow> State" where
  "NewUserData Construct p s =
     (case Construct p s of
        (data, s') \<Rightarrow>
          s'\<lparr>heap := (heap s')(next_addr s' \<mapsto> \<lparr>block = data, metatable = None\<rparr>),
             next_addr := Suc (next_addr s'),
             stack := stack s' @ [LUserData (next_addr s')]\<rparr>)"

text \<open>
  A call that runs into undefined behaviour does not return: its outcome is
  \<open>Undefined\<close>, with the state in which \<^verbatim>\<open>NewUserData\<close> was entered, the last state that
  is defined. \<open>NewUserData_WeakPtr\<close> is \<^verbatim>\<open>NewUserData\<close> for a class with weak pointers,
  whose \<^verbatim>\<open>Construct\<close> may have no result.
\<close>

datatype outcome = Returns State | Undefined State

definition NewUserData_WeakPtr :: "ptr \<Rightarrow> State \<Rightarrow> outcome" where
  "NewUserData_WeakPtr p s =
     (case WeakPtr_Construct p s of
        None \<Rightarrow> Undefined s
      | Some (data, s') \<Rightarrow>
          Returns
            (s'\<lparr>heap := (heap s')(next_addr s' \<mapsto> \<lparr>block = data, metatable = None\<rparr>),
                next_addr := Suc (next_addr s'),
                stack := stack s' @ [LUserData (next_addr s')]\<rparr>))"

definition WrapperTableGet :: "State \<Rightarrow> ptr \<Rightarrow> State option" where
  "WrapperTableGet s p =
     (case wrappers s p of
        None \<Rightarrow> None
      | Some a \<Rightarrow> Some (s\<lparr>stack := stack s @ [LUserData a]\<rparr>))"

definition WrapperTableSet :: "ptr \<Rightarrow> int \<Rightarrow> State \<Rightarrow> State" where
  "WrapperTableSet p index s =
     (case slot s (AbsIndex s index) of
        Some (LUserData a) \<Rightarrow> s\<lparr>wrappers := (wrappers s)(p \<mapsto> a)\<rparr>
      | _ \<Rightarrow> s)"

definition SetMetaTable :: "MetaTable \<Rightarrow> State \<Rightarrow> State" where
  "SetMetaTable m s =
     (case slot s (AbsIndex s (- 1)) of
        Some (LUserData a) \<Rightarrow>
          (case heap s a of
             Some u \<Rightarrow> s\<lparr>heap := (heap s)(a \<mapsto> u\<lparr>metatable := Some m\<rparr>)\<rparr>
           | None \<Rightarrow> s)
      | _ \<Rightarrow> s)"

subsection \<open>\<^verbatim>\<open>IsMetaTableInheritedFrom\<close>, \<^verbatim>\<open>To\<close> and \<^verbatim>\<open>Push\<close>\<close>

text \<open>
  \<open>To\<close> returns \<open>Some p\<close> when the source returns true with \<^verbatim>\<open>*out = p\<close>, and \<open>None\<close>
  when it returns false.
\<close>

fun IsMetaTableInheritedFrom :: "string \<Rightarrow> MetaTable \<Rightarrow> bool" where
  "IsMetaTableInheritedFrom T (MetaTable name up) =
     (if name = Some T then True
      else (case up of
              None \<Rightarrow> False
            | Some base \<Rightarrow> IsMetaTableInheritedFrom T base))"

definition RefCounted_To :: "class_info \<Rightarrow> State \<Rightarrow> int \<Rightarrow> ptr option" where
  "RefCounted_To T s index =
     (case slot s (AbsIndex s index) of
        Some (LUserData a) \<Rightarrow>
          (case heap s a of
             None \<Rightarrow> None
           | Some u \<Rightarrow>
               if RawLen u \<noteq> sizeof_ptr then None
               else (case metatable u of
                       None \<Rightarrow> None
                     | Some m \<Rightarrow>
                         if \<not> IsMetaTableInheritedFrom (type_name T) m then None
                         else Some (UserData_From s (block u))))
      | _ \<Rightarrow> None)"

definition RefCounted_Push :: "class_info \<Rightarrow> ptr \<Rightarrow> State \<Rightarrow> State" where
  "RefCounted_Push T p s =
     (if p = nullptr then PushNil s
      else (case WrapperTableGet s p of
              Some s' \<Rightarrow> s'
            | None \<Rightarrow>
                SetMetaTable (chain T)
                  (WrapperTableSet p (- 1) (NewUserData RefCounted_Construct p s))))"

definition WeakPtr_To :: "class_info \<Rightarrow> State \<Rightarrow> int \<Rightarrow> ptr option" where
  "WeakPtr_To T s index =
     (case slot s (AbsIndex s index) of
        Some (LUserData a) \<Rightarrow>
          (case heap s a of
             None \<Rightarrow> None
           | Some u \<Rightarrow>
               if RawLen u \<noteq> sizeof_WeakPtr then None
               else (let p = UserData_From s (block u)
                     in if p = nullptr then None else Some p))
      | _ \<Rightarrow> None)"

definition WeakPtr_Push :: "class_info \<Rightarrow> ptr \<Rightarrow> State \<Rightarrow> outcome" where
  "WeakPtr_Push T p s =
     (let s1 = (if p = nullptr then PushNil s else s)
      in case NewUserData_WeakPtr p s1 of
           Undefined s2 \<Rightarrow> Undefined s2
         | Returns s2 \<Rightarrow> Returns (SetMetaTable (chain T) s2))"

text \<open>The native side destroys an object: its weak pointers are invalidated.\<close>

definition destroy :: "ptr \<Rightarrow> State \<Rightarrow> State" where
  "destroy p s = s\<lparr>alive := (alive s)(p := False)\<rparr>"

text \<open>An empty state and two classes, for the concrete cases below.\<close>

definition empty_State :: State where
  "empty_State =
     \<lparr>stack = [], heap = Map.empty, next_addr = 0, wrappers = Map.empty,
      ref_count = (\<lambda>p. 0), alive = (\<lambda>p. True)\<rparr>"

definition Window :: class_info where
  "Window = \<lparr>type_name = ''Window'', chain = MetaTable (Some ''Window'') None\<rparr>"

definition Tray :: class_info where
  "Tray = \<lparr>type_name = ''Tray'', chain = MetaTable (Some ''Tray'') None\<rparr>"

section \<open>The table view: \<^verbatim>\<open>nativeui/win/table_win.cc\<close> and \<^verbatim>\<open>nativeui/gtk/table_gtk.cc\<close>\<close>

subsection \<open>Columns, the model and what the view calls\<close>

text \<open>
  \<^verbatim>\<open>Table::ColumnOptions\<close> with the fields the two files read (width \<open>-1\<close> is automatic),
  and the \<^verbatim>\<open>TableModel\<close> the view reads: its row count and its cell values. What the view
  does to its collaborators is recorded as a list of events, in the order of the calls:
  \<^verbatim>\<open>SetValue\<close> on the model, the \<^verbatim>\<open>on_toggle_checkbox\<close> signal, \<^verbatim>\<open>ListView_SetItemCountEx\<close>
  and \<^verbatim>\<open>LOG(ERROR)\<close>.
\<close>

datatype ColumnType = Text | Edit | Checkbox | Custom

record ColumnOptions =
  opt_type :: ColumnType
  opt_column :: int
  opt_width :: int

record TableModel =
  GetRowCount :: int
  GetValue :: "int \<Rightarrow> int \<Rightarrow> Value"

datatype Event =
    Model_SetValue int int Value
  | Emit_on_toggle_checkbox int int
  | ListView_SetItemCountEx int
  | LOG_ERROR

text \<open>
  Modelled from the spec: \<^verbatim>\<open>nu::Rect\<close> and \<^verbatim>\<open>Rect::Contains\<close> (\<^verbatim>\<open>nativeui/gfx/geometry\<close>, not
  among the sources): the hit region of a rectangle is the half-open box from its origin.
  \<open>int_div\<close> is the division of C++ \<^verbatim>\<open>int\<close>s, which truncates towards zero, and
  \<open>int_of_float\<close> the conversion of a floating-point value to \<^verbatim>\<open>int\<close>, which drops the
  fraction.
  \<open>GetBool\<close> is \<^verbatim>\<open>base::Value::GetBool\<close>, defined on boolean values only.
\<close>

record Rect =
  rect_x :: int
  rect_y :: int
  rect_width :: int
  rect_height :: int

definition Contains :: "Rect \<Rightarrow> int \<times> int \<Rightarrow> bool" where
  "Contains r point =
     (rect_x r \<le> fst point \<and> fst point < rect_x r + rect_width r \<and>
      rect_y r \<le> snd point \<and> snd point < rect_y r + rect_height r)"

definition int_div :: "int \<Rightarrow> int \<Rightarrow> int" where
  "int_div a b = (if (a < 0) = (b < 0) then \<bar>a\<bar> div \<bar>b\<bar> else - (\<bar>a\<bar> div \<bar>b\<bar>))"






fun GetBool :: "Value \<Rightarrow> bool option" where
  "GetBool (BOOLEAN b) = Some b"
| "GetBool v = None"

subsection \<open>The Win32 view, \<^verbatim>\<open>TableImpl\<close>\<close>

text \<open>
  The fields of \<^verbatim>\<open>TableImpl\<close> that the handlers use (the source's names end in an
  underscore). \<open>edit_proc\<close> says whether the edit window is subclassed (\<^verbatim>\<open>edit_proc_\<close> not
  null); \<open>image_list\<close> holds the icon height of \<^verbatim>\<open>image_list_\<close> when it is created;
  \<open>GetModel\<close> is the delegate's model, absent when null; \<open>GetCellBounds\<close> is the rectangle
  the list view reports for a cell.
\<close>

record TableImpl =
  columns :: "ColumnOptions list"
  checkbox_size :: "int \<times> int"
  edit_row :: int
  edit_column :: int
  edit_proc :: bool
  image_list :: "int option"
  scale_factor :: real
  GetModel :: "TableModel option"
  GetCellBounds :: "int \<Rightarrow> int \<Rightarrow> Rect"
  calls :: "Event list"

definition GetColumnCount :: "TableImpl \<Rightarrow> int" where
  "GetColumnCount t = int (length (columns t))"

definition call :: "Event \<Rightarrow> TableImpl \<Rightarrow> TableImpl" where
  "call e t = t\<lparr>calls := calls t @ [e]\<rparr>"

text \<open>No cell is under edit: the values \<^verbatim>\<open>OnEndEdit\<close> leaves.\<close>

definition idle :: "TableImpl \<Rightarrow> bool" where
  "idle t = (edit_row t = - 1 \<and> edit_column t = - 1 \<and> \<not> edit_proc t)"

text \<open>
  \<open>OnBeginEdit hit row\<close>: \<open>hit\<close> is what \<^verbatim>\<open>ListView_SubItemHitTest\<close> finds under the cursor,
  \<^verbatim>\<open>(iSubItem, iItem)\<close>. The result \<^verbatim>\<open>TRUE\<close> cancels the edit, \<^verbatim>\<open>FALSE\<close> allows it.
  \<open>OnEndEdit pszText row\<close>: \<open>pszText\<close> is the new text, absent (null) when the edit was
  cancelled.
\<close>

definition OnBeginEdit :: "int \<times> int \<Rightarrow> int \<Rightarrow> TableImpl \<Rightarrow> bool \<times> TableImpl" where
  "OnBeginEdit hit row t =
     (case hit of (iSubItem, iItem) \<Rightarrow>
        if iSubItem < 0 \<or> iSubItem \<ge> GetColumnCount t \<or> row \<noteq> iItem then (True, t)
        else
          let column = iSubItem in
          if opt_type (columns t ! nat column) \<noteq> Edit then (True, t)
          else
            let t1 = t\<lparr>edit_row := row, edit_column := column\<rparr> in
            if column > 0 then (False, t1\<lparr>edit_proc := True\<rparr>)
            else (False, t1))"

definition OnEndEdit :: "string option \<Rightarrow> int \<Rightarrow> TableImpl \<Rightarrow> bool \<times> TableImpl" where
  "OnEndEdit pszText row t =
     (let t1 = (case pszText of
                  None \<Rightarrow> t
                | Some new_text \<Rightarrow>
                    (case GetModel t of
                       None \<Rightarrow> t
                     | Some m \<Rightarrow> call (Model_SetValue (edit_column t) (edit_row t) (STRING new_text)) t));
          t2 = t1\<lparr>edit_row := - 1, edit_column := - 1\<rparr>
      in if edit_proc t2 then (False, t2\<lparr>edit_proc := False\<rparr>) else (True, t2))"

text \<open>
  \<open>OnItemClick\<close>: \<^verbatim>\<open>columns_[column]\<close> outside the vector and \<^verbatim>\<open>GetBool\<close> on a value that is
  no boolean are undefined in the source; the model returns \<open>None\<close> there.
\<close>

definition GetCheckboxBounds :: "TableImpl \<Rightarrow> int \<Rightarrow> int \<Rightarrow> Rect" where
  "GetCheckboxBounds t column row =
     (let rect = GetCellBounds t column row in
      \<lparr>rect_x = rect_x rect + int_div (rect_width rect - fst (checkbox_size t)) 2,
       rect_y = rect_y rect + int_div (rect_height rect - snd (checkbox_size t)) 2,
       rect_width = fst (checkbox_size t),
       rect_height = snd (checkbox_size t)\<rparr>)"

definition OnItemClick :: "int \<times> int \<Rightarrow> int \<Rightarrow> int \<Rightarrow> TableImpl \<Rightarrow> (bool \<times> TableImpl) option" where
  "OnItemClick point column row t =
     (if column < 0 \<or> column \<ge> GetColumnCount t then None
      else if opt_type (columns t ! nat column) \<noteq> Checkbox then Some (False, t)
      else if \<not> Contains (GetCheckboxBounds t column row) point then Some (False, t)
      else (case GetModel t of
              None \<Rightarrow> Some (False, t)
            | Some m \<Rightarrow>
                (case GetBool (GetValue m column row) of
                   None \<Rightarrow> None
                 | Some b \<Rightarrow>
                     Some (True,
                       call (Emit_on_toggle_checkbox column row)
                         (call (Model_SetValue column row (BOOLEAN (\<not> b))) t)))))"









subsection \<open>The GTK view\<close>

text \<open>
  Of the GTK widget: the columns appended to the tree view, each with the fixed width
  set on it if any; the \<^verbatim>\<open>"row-height"\<close> datum; the model; the events.
\<close>

record GtkTable =
  tree_columns :: "(ColumnOptions \<times> int option) list"
  row_height :: int
  gtk_GetModel :: "TableModel option"
  gtk_calls :: "Event list"

definition GetColumnCount_gtk :: "GtkTable \<Rightarrow> int" where
  "GetColumnCount_gtk g = int (length (tree_columns g))"



definition AddColumnWithOptions_gtk :: "ColumnOptions \<Rightarrow> GtkTable \<Rightarrow> GtkTable" where
  "AddColumnWithOptions_gtk options g =
     (let column = (if opt_column options = - 1 then GetColumnCount_gtk g else opt_column options);
          fixed_width = (if opt_width options \<noteq> - 1 then Some (opt_width options) else None)
      in g\<lparr>tree_columns := tree_columns g @ [(options\<lparr>opt_column := column\<rparr>, fixed_width)]\<rparr>)"

definition OnCellToggled :: "int \<Rightarrow> int \<Rightarrow> GtkTable \<Rightarrow> GtkTable option" where
  "OnCellToggled column row g =
     (case gtk_GetModel g of
        None \<Rightarrow> None
      | Some m \<Rightarrow>
          (case GetBool (GetValue m column row) of
             None \<Rightarrow> None
           | Some b \<Rightarrow>
               Some (g\<lparr>gtk_calls := gtk_calls g @
                        [Model_SetValue column row (BOOLEAN (\<not> b)),
                         Emit_on_toggle_checkbox column row]\<rparr>)))"

subsection \<open>Concrete tables\<close>


definition no_rows :: TableModel where
  "no_rows = \<lparr>GetRowCount = 0, GetValue = (\<lambda>column row. NONE)\<rparr>"

definition one_column :: "ColumnType \<Rightarrow> int \<Rightarrow> TableModel option \<Rightarrow> TableImpl" where
  "one_column ty w model =
     \<lparr>columns = [\<lparr>opt_type = ty, opt_column = 0, opt_width = w\<rparr>],
      checkbox_size = (13, 13), edit_row = - 1, edit_column = - 1, edit_proc = False,
      image_list = None, scale_factor = 1, GetModel = model,
      GetCellBounds = (\<lambda>column row. \<lparr>rect_x = 0, rect_y = 20 * row, rect_width = 100, rect_height = 20\<rparr>),
      calls = []\<rparr>"

definition all_checked :: TableModel where
  "all_checked = \<lparr>GetRowCount = 4, GetValue = (\<lambda>column row. BOOLEAN True)\<rparr>"

definition gtk_table :: "TableModel option \<Rightarrow> GtkTable" where
  "gtk_table model = \<lparr>tree_columns = [], row_height = 20, gtk_GetModel = model, gtk_calls = []\<rparr>"



section \<open>Properties of the value bridge\<close>

subsection \<open>Integer conversions\<close>

lemma cast_small: 
  assumes "unat (n::64 word) < 2^31" shows "lua_Integer_of_int (int_of_size_t n) = n"
proof -
  have "unat n < 2147483648" using assms by simp
  then have "int (unat n) < 2147483648" by linarith
  then have u: "uint n < 2147483648" by simp
  have u0: "0 \<le> uint n" by simp
  have "take_bit 32 (uint n) = uint n"
    by (rule take_bit_int_eq_self) (use u u0 in simp_all)
  then have a: "uint (ucast n :: 32 word) = uint n"
    by (simp add: unsigned_ucast_eq)
  have u1: "- 2147483648 \<le> uint n" using u0 by linarith
  have "signed_take_bit 31 (uint n) = uint n"
    by (rule signed_take_bit_int_eq_self) (use u u1 in simp_all)
  then have b: "sint (ucast n :: 32 word) = uint n"
    using a by (simp add: sint_uint)
  show ?thesis
    unfolding lua_Integer_of_int_def int_of_size_t_def
    by (simp add: scast_eq b)
qed

lemma rt32: "int_of_lua_Integer (lua_Integer_of_int i) = i"
  unfolding lua_Integer_of_int_def int_of_lua_Integer_def
  by (rule bit_word_eqI) (auto simp add: bit_simps)

lemma unat_succ:
  assumes "unat (sz::64 word) + 1 < 2^31" shows "unat (sz + 1) = unat sz + 1"
proof -
  have "unat sz + 1 < 2147483648" using assms by simp
  then have "unat sz + unat (1::64 word) < 2 ^ LENGTH(64)" by simp
  then have "unat (sz + 1) = unat sz + unat (1::64 word)" by (simp only: unat_add_lem [THEN iffD1])
  then show ?thesis by simp
qed

lemma of_nat_inj64:
  assumes "a < 2^31" "b < 2^31" "(of_nat a :: 64 word) = of_nat b" shows "a = b"
proof -
  have "a < 2147483648" "b < 2147483648" using assms by simp_all
  then have "a < 2 ^ LENGTH(64)" "b < 2 ^ LENGTH(64)" by simp_all
  then have "unat (of_nat a :: 64 word) = a" "unat (of_nat b :: 64 word) = b"
    by (simp_all add: unat_of_nat)
  then show ?thesis using assms(3) by metis
qed

subsection \<open>The array test\<close>

lemma run_from_Suc: "run_from m (Suc len) = LInteger (of_nat m) # run_from (Suc m) len"
  by (simp add: run_from_def upt_rec)

lemma run_from_snoc: "run_from m (Suc len) = run_from m len @ [LInteger (of_nat (m + len))]"
  by (simp add: run_from_def)

lemma length_run_from: "length (run_from m len) = len"
  by (simp add: run_from_def)

lemma normal_run_from: "list_all normal_key (run_from m len)"
  by (simp add: run_from_def list_all_iff)

lemma run_from_fresh:
  assumes "m + len < 2^31"
  shows "LInteger (of_nat (m + len)) \<notin> set (run_from m len)"
proof
  assume "LInteger (of_nat (m + len)) \<in> set (run_from m len)"
  then obtain j where j: "m \<le> j" "j < m + len" "(of_nat (m + len) :: 64 word) = of_nat j"
    by (auto simp: run_from_def)
  have "m + len = j"
    using assms j(2) by (intro of_nat_inj64 [OF _ _ j(3)]) simp_all
  then show False using j(2) by simp
qed

lemma key_test:
  assumes "unat (sz::64 word) + 1 < 2^31" and "normal_key k"
  shows "(GetType k = LuaType_Number \<and> lua_tointeger k = lua_Integer_of_int (int_of_size_t (sz + 1)))
          \<longleftrightarrow> k = LInteger (of_nat (unat sz + 1))"
proof -
  have s: "unat (sz + 1) = unat sz + 1" using assms(1) by (rule unat_succ)
  then have "unat (sz + 1) < 2^31" using assms(1) by simp
  then have c: "lua_Integer_of_int (int_of_size_t (sz + 1)) = sz + 1" by (rule cast_small)
  have w: "(of_nat (unat sz + 1) :: 64 word) = sz + 1" by simp
  have nz: "sz + 1 \<noteq> 0" using s by (metis Suc_eq_plus1 nat.distinct(1) unat_0)
  show ?thesis using assms(2) nz unfolding c w by (cases k) auto
qed

lemma loop_ok:
  "unat sz + length t < 2^31 \<Longrightarrow> list_all normal_key (map fst t) \<Longrightarrow>
   fst (IsTableArray_loop t sz) \<longleftrightarrow> map fst t = run_from (unat sz + 1) (length t)"
proof (induction t arbitrary: sz)
  case Nil
  then show ?case by (simp add: run_from_def)
next
  case (Cons e t)
  obtain k v where e: "e = (k, v)" by (cases e)
  have b: "unat sz + 1 < 2^31" using Cons.prems(1) by simp
  have s: "unat (sz + 1) = unat sz + 1" using b by (rule unat_succ)
  have nk: "normal_key k" using Cons.prems(2) e by simp
  have kt: "(GetType k = LuaType_Number \<and> lua_tointeger k = lua_Integer_of_int (int_of_size_t (sz + 1)))
          \<longleftrightarrow> k = LInteger (of_nat (unat sz + 1))" using b nk by (rule key_test)
  have ih: "fst (IsTableArray_loop t (sz + 1)) \<longleftrightarrow> map fst t = run_from (unat (sz + 1) + 1) (length t)"
    using Cons.prems s by (intro Cons.IH) simp_all
  show ?case
  proof (cases "k = LInteger (of_nat (unat sz + 1))")
    case True
    then have "IsTableArray_loop (e # t) sz = IsTableArray_loop t (sz + 1)"
      using kt e by simp
    then show ?thesis using ih s True e by (simp add: run_from_Suc)
  next
    case False
    then have "IsTableArray_loop (e # t) sz = (False, sz)"
      using kt e by auto
    then show ?thesis using False e by (simp add: run_from_Suc)
  qed
qed

subsection \<open>What Push builds\<close>

lemma Value_Push_LNil: "Value_Push v = LNil \<longleftrightarrow> v = NONE"
  by (cases v) simp_all

lemma lua_rawset_new: "k \<notin> fst ` set t \<Longrightarrow> v \<noteq> LNil \<Longrightarrow> lua_rawset t k v = t @ [(k, v)]"
  by (induction t) auto

lemma c_str_id: "CHR 0x00 \<notin> set s \<Longrightarrow> c_str s = s"
  unfolding c_str_def by (induction s) auto

lemma entry_pair: "entry (k, v) = (LString k, Value_Push v)"
  by (simp add: entry_def)

lemma Push_DICT_entries:
  "distinct (map fst d) \<Longrightarrow> \<forall>k \<in> fst ` set d. LString k \<notin> fst ` set t \<Longrightarrow>
   \<forall>v \<in> snd ` set d. v \<noteq> NONE \<Longrightarrow> Push_DICT d t = t @ map entry d"
proof (induction d arbitrary: t)
  case Nil
  then show ?case by simp
next
  case (Cons e d)
  obtain k v where e: "e = (k, v)" by (cases e)
  have 1: "lua_rawset t (LString k) (Value_Push v) = t @ [(LString k, Value_Push v)]"
    using Cons.prems e by (intro lua_rawset_new) (auto simp: Value_Push_LNil)
  have 2: "Push_DICT d (t @ [(LString k, Value_Push v)]) = (t @ [(LString k, Value_Push v)]) @ map entry d"
    using Cons.prems e by (intro Cons.IH) auto
  show ?case using 1 2 e by (simp add: entry_pair)
qed

lemma Push_LIST_entries:
  "unat i + length l < 2 ^ 31 \<Longrightarrow> map fst t = run_from 1 (unat i) \<Longrightarrow>
   \<forall>v \<in> set l. v \<noteq> NONE \<Longrightarrow>
   Push_LIST l i t = t @ zip (run_from (unat i + 1) (length l)) (map Value_Push l)"
proof (induction l arbitrary: i t)
  case Nil
  then show ?case by simp
next
  case (Cons v l)
  have b: "unat i + 1 < 2^31" using Cons.prems(1) by simp
  have s: "unat (i + 1) = unat i + 1" using b by (rule unat_succ)
  then have "unat (i + 1) < 2^31" using b by simp
  then have c: "lua_Integer_of_int (int_of_size_t (i + 1)) = i + 1" by (rule cast_small)
  have w: "i + 1 = (of_nat (1 + unat i) :: 64 word)" by simp
  have "LInteger (of_nat (1 + unat i)) \<notin> set (run_from 1 (unat i))"
    using b by (intro run_from_fresh) simp
  then have fresh: "LInteger (i + 1) \<notin> fst ` set t"
    using Cons.prems(2) w by (metis list.set_map)
  have 1: "lua_rawset t (LInteger (i + 1)) (Value_Push v) = t @ [(LInteger (i + 1), Value_Push v)]"
    using fresh Cons.prems(3) by (intro lua_rawset_new) (auto simp: Value_Push_LNil)
  have keys: "map fst (t @ [(LInteger (i + 1), Value_Push v)]) = run_from 1 (unat (i + 1))"
    unfolding s using Cons.prems(2) w by (simp add: run_from_snoc add.commute)
  have 2: "Push_LIST l (i + 1) (t @ [(LInteger (i + 1), Value_Push v)]) =
        (t @ [(LInteger (i + 1), Value_Push v)]) @ zip (run_from (unat (i + 1) + 1) (length l)) (map Value_Push l)"
    using Cons.prems s keys by (intro Cons.IH) simp_all
  have 3: "run_from (unat i + 1) (length (v # l)) = LInteger (i + 1) # run_from (unat (i + 1) + 1) (length l)"
    unfolding s using w by (simp add: run_from_Suc)
  show ?case unfolding 3 using 1 2 c by simp
qed

lemma IsTableArray_entries: "d \<noteq> [] \<Longrightarrow> \<not> fst (IsTableArray (map entry d))"
  by (cases d) (auto simp: IsTableArray_def entry_def)

lemma IsTableArray_run:
  assumes "length l < 2 ^ 31"
  shows "fst (IsTableArray (zip (run_from 1 (length l)) (map Value_Push l)))"
proof -
  let ?t = "zip (run_from 1 (length l)) (map Value_Push l)"
  have k: "map fst ?t = run_from 1 (length l)" by (simp add: length_run_from)
  have n: "length ?t = length l" by (simp add: length_run_from)
  have nk: "list_all normal_key (map fst ?t)" unfolding k by (rule normal_run_from)
  have b: "unat (0::64 word) + length ?t < 2 ^ 31" unfolding n using assms by simp
  have "fst (IsTableArray_loop ?t 0) \<longleftrightarrow> map fst ?t = run_from (unat (0::64 word) + 1) (length ?t)"
    using b nk by (rule loop_ok)
  then show ?thesis unfolding IsTableArray_def n k by simp
qed

subsection \<open>What To reads\<close>

lemma Dict_Set_last: "\<forall>k' \<in> fst ` set d. k' < k \<Longrightarrow> Dict_Set k v d = d @ [(k, v)]"
  by (induction d) auto

lemma To_DICT_entries:
  "sorted_wrt (<) (map fst (acc @ d)) \<Longrightarrow>
   \<forall>e \<in> set d. Value_To (Value_Push (snd e)) NONE = (True, snd e) \<and> c_str (fst e) = fst e \<Longrightarrow>
   To_DICT (map entry d) acc = (True, DICT (acc @ d))"
proof (induction d arbitrary: acc)
  case Nil
  then show ?case by simp
next
  case (Cons e d)
  obtain k v where e: "e = (k, v)" by (cases e)
  have lt: "\<forall>k' \<in> fst ` set acc. k' < k"
    using Cons.prems(1) e by (auto simp: sorted_wrt_append)
  have 1: "Dict_Set k v acc = acc @ [(k, v)]" using lt by (rule Dict_Set_last)
  have 2: "To_DICT (map entry d) (acc @ [(k, v)]) = (True, DICT ((acc @ [(k, v)]) @ d))"
    using Cons.prems e by (intro Cons.IH) auto
  show ?case using Cons.prems(2) 1 2 e by (simp add: entry_pair)
qed

lemma To_vector_entries:
  "length ks = length l \<Longrightarrow> \<forall>v \<in> set l. Value_To (Value_Push v) NONE = (True, v) \<Longrightarrow>
   To_vector (zip ks (map Value_Push l)) acc = Some (acc @ l)"
proof (induction l arbitrary: ks acc)
  case Nil
  then show ?case by simp
next
  case (Cons v l)
  then obtain k ks' where ks: "ks = k # ks'" "length ks' = length l" by (cases ks) auto
  have "To_vector (zip ks' (map Value_Push l)) (acc @ [v]) = Some ((acc @ [v]) @ l)"
    using ks(2) Cons.prems(2) by (intro Cons.IH) simp_all
  then show ?case using ks Cons.prems(2) by simp
qed

lemma string_To_None: "string_To k = None \<longleftrightarrow> GetType k \<noteq> LuaType_String"
  by (cases k) simp_all

lemma To_DICT_is_DICT: "\<exists>d'. snd (To_DICT t d) = DICT d'"
  by (induction t arbitrary: d) (auto split: option.splits prod.splits bool.splits)

lemma Dict_Set_keys: "fst ` set (Dict_Set k v d) = insert k (fst ` set d)"
proof (induction d)
  case Nil
  then show ?case by simp
next
  case (Cons e d)
  obtain k' v' where e: "e = (k', v')" by (cases e)
  consider "k < k'" | "k = k'" | "\<not> k < k'" "k \<noteq> k'" by blast
  then show ?case
  proof cases
    case 1
    then show ?thesis unfolding e by simp
  next
    case 2
    then show ?thesis unfolding e by simp
  next
    case 3
    then have "Dict_Set k v ((k', v') # d) = (k', v') # Dict_Set k v d" by simp
    then show ?thesis unfolding e using Cons.IH by (simp add: insert_commute)
  qed
qed

lemma Dict_Set_sorted:
  "sorted_wrt (<) (map fst d) \<Longrightarrow> sorted_wrt (<) (map fst (Dict_Set k v d))"
proof (induction d)
  case Nil
  then show ?case by simp
next
  case (Cons e d)
  obtain k' v' where e: "e = (k', v')" by (cases e)
  have ih: "sorted_wrt (<) (map fst (Dict_Set k v d))" using Cons by simp
  have gt: "\<forall>x \<in> fst ` set d. k' < x" using Cons.prems e by auto
  show ?case
  proof (cases "k < k'")
    case True
    then show ?thesis using Cons.prems e gt by auto
  next
    case False
    show ?thesis
    proof (cases "k = k'")
      case True
      then show ?thesis using Cons.prems e by simp
    next
      case neq: False
      then have "k' < k" using False by simp
      then have "\<forall>x \<in> fst ` set (Dict_Set k v d). k' < x"
        using gt by (simp add: Dict_Set_keys)
      then show ?thesis using False neq e ih by auto
    qed
  qed
qed

lemma Dict_Set_map_of: "map_of (Dict_Set k v d) = (map_of d)(k \<mapsto> v)"
  by (induction d) (auto simp: fun_eq_iff)

lemma To_vector_all:
  "To_vector t acc =
     (if list_all converts (map snd t) then Some (acc @ map converted (map snd t)) else None)"
proof (induction t arbitrary: acc)
  case Nil
  then show ?case by simp
next
  case (Cons e t)
  obtain k v where e: "e = (k, v)" by (cases e)
  obtain ok val where r: "Value_To v NONE = (ok, val)" by (cases "Value_To v NONE")
  show ?case using e r Cons.IH [of "acc @ [val]"]
    by (cases ok) (simp_all add: converts_def converted_def)
qed

lemma To_DICT_all:
  "sorted_wrt (<) (map fst acc) \<Longrightarrow>
   list_all (\<lambda>k. GetType k = LuaType_String) (map fst t) \<Longrightarrow> list_all converts (map snd t) \<Longrightarrow>
   \<exists>d. To_DICT t acc = (True, DICT d) \<and> sorted_wrt (<) (map fst d) \<and>
       map_of d = map_of (rev (map read_entry t) @ acc)"
proof (induction t arbitrary: acc)
  case Nil
  then show ?case by simp
next
  case (Cons e t)
  obtain k v where e: "e = (k, v)" by (cases e)
  obtain s where k: "k = LString s" using Cons.prems(2) e by (cases k) simp_all
  obtain val where r: "Value_To v NONE = (True, val)"
    using Cons.prems(3) e by (cases "Value_To v NONE") (simp add: converts_def)
  let ?acc = "Dict_Set (c_str s) val acc"
  have step: "To_DICT (e # t) acc = To_DICT t ?acc" using e k r by simp
  have so: "sorted_wrt (<) (map fst ?acc)" using Cons.prems(1) by (rule Dict_Set_sorted)
  obtain d where d: "To_DICT t ?acc = (True, DICT d)" "sorted_wrt (<) (map fst d)"
    "map_of d = map_of (rev (map read_entry t) @ ?acc)"
    using Cons.IH [OF so] Cons.prems(2,3) e by auto
  have re: "read_entry e = (c_str s, val)" using e k r by (simp add: read_entry_def converted_def)
  have "map_of (rev (map read_entry t) @ ?acc) = map_of (rev (map read_entry (e # t)) @ acc)"
    using re by (simp add: Dict_Set_map_of map_add_def fun_eq_iff split: option.splits)
  then show ?case using step d by simp
qed

lemma To_DICT_fails:
  "\<not> (list_all (\<lambda>k. GetType k = LuaType_String) (map fst t) \<and> list_all converts (map snd t)) \<Longrightarrow>
   \<not> fst (To_DICT t d)"
proof (induction t arbitrary: d)
  case Nil
  then show ?case by simp
next
  case (Cons e t)
  obtain k v where e: "e = (k, v)" by (cases e)
  show ?case
  proof (cases "GetType k = LuaType_String \<and> converts v")
    case True
    then obtain s where k: "k = LString s" by (cases k) simp_all
    obtain val where r: "Value_To v NONE = (True, val)"
      using True by (cases "Value_To v NONE") (simp add: converts_def)
    have "\<not> (list_all (\<lambda>k. GetType k = LuaType_String) (map fst t) \<and> list_all converts (map snd t))"
      using Cons.prems True e by auto
    then have "\<not> fst (To_DICT t (Dict_Set (c_str s) val d))" by (rule Cons.IH)
    then show ?thesis using e k r by simp
  next
    case False
    then show ?thesis using e
      by (cases k; cases "Value_To v NONE") (auto simp: converts_def)
  qed
qed

lemma DICT_round_trip:
  assumes "d \<noteq> []" "sorted_wrt (<) (map fst d)"
    and "\<forall>e \<in> set d. Value_To (Value_Push (snd e)) NONE = (True, snd e) \<and> c_str (fst e) = fst e \<and> snd e \<noteq> NONE"
  shows "Value_To (Value_Push (DICT d)) out = (True, DICT d)"
proof -
  have "distinct (map fst d)" using assms(2) by (simp add: strict_sorted_iff)
  then have "Push_DICT d [] = [] @ map entry d"
    using assms(3) by (intro Push_DICT_entries) auto
  then have p: "Value_Push (DICT d) = LTable (map entry d)" by simp
  have a: "\<not> fst (IsTableArray (map entry d))" using assms(1) by (rule IsTableArray_entries)
  have "To_DICT (map entry d) [] = (True, DICT ([] @ d))"
    using assms(2,3) by (intro To_DICT_entries) auto
  then show ?thesis unfolding p using a by simp
qed

lemma LIST_round_trip:
  assumes "length l < 2 ^ 31"
    and "\<forall>v \<in> set l. Value_To (Value_Push v) NONE = (True, v) \<and> v \<noteq> NONE"
  shows "Value_To (Value_Push (LIST l)) out = (True, LIST l)"
proof -
  let ?t = "zip (run_from 1 (length l)) (map Value_Push l)"
  have "Push_LIST l 0 [] = [] @ zip (run_from (unat (0::64 word) + 1) (length l)) (map Value_Push l)"
    using assms by (intro Push_LIST_entries) (simp_all add: run_from_def)
  then have p: "Value_Push (LIST l) = LTable ?t" by simp
  have a: "fst (IsTableArray ?t)" using assms(1) by (rule IsTableArray_run)
  have "To_vector ?t [] = Some ([] @ l)"
    using assms(2) by (intro To_vector_entries) (simp_all add: length_run_from)
  then show ?thesis unfolding p using a by simp
qed

lemma round_trip_mutual:
  "two_way v \<longrightarrow> (\<forall>out. Value_To (Value_Push v) out = (True, v))"
  "two_way_DICT d \<longrightarrow> (\<forall>e \<in> set d. Value_To (Value_Push (snd e)) NONE = (True, snd e) \<and> c_str (fst e) = fst e \<and> snd e \<noteq> NONE)"
  "two_way_LIST l \<longrightarrow> (\<forall>v \<in> set l. Value_To (Value_Push v) NONE = (True, v) \<and> v \<noteq> NONE)"
proof (induction v and d and l rule: two_way_two_way_DICT_two_way_LIST.induct)
  case (7 d)
  then show ?case using DICT_round_trip [of d] by simp
next
  case (8 l)
  then show ?case using LIST_round_trip [of l] by simp
qed (simp_all add: rt32 c_str_id)

subsection \<open>Claims about the value bridge\<close>

text \<open>
  Claim C2, as stated: every dynamic value read back after a push equals the original
  (but for tables with one non-sequential integer key). It fails: a blob is pushed with
  \<^verbatim>\<open>lua_pushlstring\<close> as a Lua string, and a string slot is read back as a \<open>STRING\<close>.
\<close>

theorem round_trip_counterexample:
  "Value_To (Value_Push (BINARY ''ab'')) NONE = (True, STRING ''ab'') \<and> STRING ''ab'' \<noteq> BINARY ''ab''"
  by (simp add: c_str_def)

text \<open>
  Claim C2, amended: for every value of \<open>two_way\<close>, reading the pushed value back
  succeeds and yields the original value, whatever the output held before.
\<close>

theorem round_trip: "two_way v \<Longrightarrow> Value_To (Value_Push v) out = (True, v)"
  using round_trip_mutual(1) by blast

theorem round_trip_witness:
  "two_way (DICT [(''a'', LIST [INTEGER 1, STRING ''x'']), (''b'', DOUBLE 2)]) \<and>
   Value_To (Value_Push (DICT [(''a'', LIST [INTEGER 1, STRING ''x'']), (''b'', DOUBLE 2)])) NONE =
     (True, DICT [(''a'', LIST [INTEGER 1, STRING ''x'']), (''b'', DOUBLE 2)])"
proof -
  have h: "two_way (DICT [(''a'', LIST [INTEGER 1, STRING ''x'']), (''b'', DOUBLE 2)])"
    by simp
  show ?thesis using h round_trip [OF h, of NONE] by simp
qed

text \<open>
  Outside \<open>two_way\<close>: a boolean is read back as the integer 0 or 1, an empty dictionary
  as an empty list, a list with a \<open>NONE\<close> element loses the element or, when that leaves a
  gap before a later element, is not read back at all.
\<close>

lemma BOOLEAN_read_back: "Value_To (Value_Push (BOOLEAN b)) out = (True, INTEGER (if b then 1 else 0))"
  by simp

lemma empty_DICT_read_back: "Value_To (Value_Push (DICT [])) out = (True, LIST [])"
  by (simp add: IsTableArray_def)

lemma LIST_hole_read_back:
  "Value_To (Value_Push (LIST [INTEGER 1, NONE])) out = (True, LIST [INTEGER 1]) \<and>
   Value_To (Value_Push (LIST [NONE, INTEGER 1])) out = (False, DICT [])"
  by (simp add: IsTableArray_def int_of_size_t_def lua_Integer_of_int_def int_of_lua_Integer_def)

text \<open>
  Claim C3, as stated, has a table classified as a list exactly when its keys are the
  integers \<open>1, ..., N\<close>. The test is on the order of the enumeration: a table whose keys
  are 1 and 2, enumerated as 2 then 1 (as \<^verbatim>\<open>lua_next\<close> may for keys in the hash part), is
  not classified as a list, and its read as a mapping fails on the integer keys.
\<close>

theorem table_classification_counterexample:
  "list_all normal_key (map fst [(LInteger 2, LString ''b''), (LInteger 1, LString ''a'')]) \<and>
   set (map fst [(LInteger 2, LString ''b''), (LInteger 1, LString ''a'')]) = {LInteger 1, LInteger 2} \<and>
   \<not> fst (IsTableArray [(LInteger 2, LString ''b''), (LInteger 1, LString ''a'')]) \<and>
   \<not> fst (Value_To (LTable [(LInteger 2, LString ''b''), (LInteger 1, LString ''a'')]) NONE)"
  by (auto simp: IsTableArray_def int_of_size_t_def lua_Integer_of_int_def)

text \<open>
  Claim C3, amended: for a table of fewer than \<open>2 ^ 31\<close> entries with normal keys, the
  table is classified as a list exactly when the keys, in the order in which the
  enumeration yields them, are the integers \<open>1, 2, ..., N\<close> (\<open>N\<close> the number of entries).
  A table so classified is read as the list of its values, converted in that order, and
  when a value does not convert the read fails and leaves the output as it was. Any other
  table is read as a string-keyed mapping: when every key is a string and every value
  converts, the read succeeds with the dictionary, sorted by key, that maps every key (up
  to its first zero byte) to its converted value, the entry enumerated last winning; when
  some key is not a string or some value does not convert, the read fails, with a
  dictionary in the output.
\<close>

theorem table_classification:
  assumes "length t < 2 ^ 31" and "list_all normal_key (map fst t)"
  shows "(fst (IsTableArray t) \<longleftrightarrow>
            map fst t = map (\<lambda>i. LInteger (of_nat i)) [1 ..< Suc (length t)]) \<and>
         (fst (IsTableArray t) \<and> list_all converts (map snd t) \<longrightarrow>
            Value_To (LTable t) out = (True, LIST (map converted (map snd t)))) \<and>
         (fst (IsTableArray t) \<and> \<not> list_all converts (map snd t) \<longrightarrow>
            Value_To (LTable t) out = (False, out)) \<and>
         (\<not> fst (IsTableArray t) \<and> list_all (\<lambda>k. GetType k = LuaType_String) (map fst t) \<and>
            list_all converts (map snd t) \<longrightarrow>
            (\<exists>d. Value_To (LTable t) out = (True, DICT d) \<and> sorted_wrt (<) (map fst d) \<and>
                 map_of d = map_of (rev (map read_entry t)))) \<and>
         (\<not> fst (IsTableArray t) \<and>
            \<not> (list_all (\<lambda>k. GetType k = LuaType_String) (map fst t) \<and> list_all converts (map snd t)) \<longrightarrow>
            \<not> fst (Value_To (LTable t) out) \<and> (\<exists>d. snd (Value_To (LTable t) out) = DICT d))"
proof -
  have b: "unat (0::64 word) + length t < 2 ^ 31" using assms(1) by simp
  have "fst (IsTableArray_loop t 0) \<longleftrightarrow> map fst t = run_from (unat (0::64 word) + 1) (length t)"
    using b assms(2) by (rule loop_ok)
  then have 1: "fst (IsTableArray t) \<longleftrightarrow>
      map fst t = map (\<lambda>i. LInteger (of_nat i)) [1 ..< Suc (length t)]"
    by (simp add: IsTableArray_def run_from_def)
  have v: "To_vector t [] =
      (if list_all converts (map snd t) then Some ([] @ map converted (map snd t)) else None)"
    by (rule To_vector_all)
  have 2: "fst (IsTableArray t) \<and> list_all converts (map snd t) \<longrightarrow>
            Value_To (LTable t) out = (True, LIST (map converted (map snd t)))"
    using v by simp
  have 3: "fst (IsTableArray t) \<and> \<not> list_all converts (map snd t) \<longrightarrow>
            Value_To (LTable t) out = (False, out)"
    using v by simp
  have 4: "\<not> fst (IsTableArray t) \<and> list_all (\<lambda>k. GetType k = LuaType_String) (map fst t) \<and>
            list_all converts (map snd t) \<longrightarrow>
            (\<exists>d. Value_To (LTable t) out = (True, DICT d) \<and> sorted_wrt (<) (map fst d) \<and>
                 map_of d = map_of (rev (map read_entry t)))"
    using To_DICT_all [of "[]" t] by simp
  have 5: "\<not> fst (IsTableArray t) \<and>
            \<not> (list_all (\<lambda>k. GetType k = LuaType_String) (map fst t) \<and> list_all converts (map snd t)) \<longrightarrow>
            \<not> fst (Value_To (LTable t) out) \<and> (\<exists>d. snd (Value_To (LTable t) out) = DICT d)"
    using To_DICT_fails [of t "[]"] To_DICT_is_DICT [of t "[]"] by simp
  show ?thesis using 1 2 3 4 5 by blast
qed

theorem table_classification_witness:
  "fst (IsTableArray [(LInteger 1, LString ''a''), (LInteger 2, LFloat 3)]) \<and>
   Value_To (LTable [(LInteger 1, LString ''a''), (LInteger 2, LFloat 3)]) NONE =
     (True, LIST [STRING ''a'', DOUBLE 3]) \<and>
   \<not> fst (IsTableArray [(LString ''k'', LInteger 5), (LString ''j'', LInteger 6)]) \<and>
   Value_To (LTable [(LString ''k'', LInteger 5), (LString ''j'', LInteger 6)]) NONE =
     (True, DICT [(''j'', INTEGER 6), (''k'', INTEGER 5)]) \<and>
   \<not> fst (IsTableArray [(LString ''k'', LInteger 5), (LInteger 7, LInteger 6)]) \<and>
   \<not> fst (Value_To (LTable [(LString ''k'', LInteger 5), (LInteger 7, LInteger 6)]) NONE)"
  using table_classification [of "[(LInteger 1, LString ''a''), (LInteger 2, LFloat 3)]" NONE]
    table_classification [of "[(LString ''k'', LInteger 5), (LString ''j'', LInteger 6)]" NONE]
    table_classification [of "[(LString ''k'', LInteger 5), (LInteger 7, LInteger 6)]" NONE]
  by (simp add: IsTableArray_def int_of_size_t_def lua_Integer_of_int_def int_of_lua_Integer_def
      c_str_def converts_def converted_def)

text \<open>
  Claim C4, as stated: reading a slot whose type is neither number, boolean, string nor
  table reports failure and leaves the output alone. It fails: the \<^verbatim>\<open>default\<close> branch
  assigns the none value to the output and the function returns \<^verbatim>\<open>true\<close>.
\<close>

theorem unsupported_counterexample:
  "GetType (LUserData 0) \<notin> {LuaType_Number, LuaType_Boolean, LuaType_String, LuaType_Table} \<and>
   Value_To (LUserData 0) (STRING ''kept'') = (True, NONE)"
  by simp

text \<open>
  Claim C4, amended: reading a slot whose type is neither number, boolean, string nor
  table reports success and stores the none value in the output.
\<close>

theorem unsupported_reads_NONE:
  "GetType v \<notin> {LuaType_Number, LuaType_Boolean, LuaType_String, LuaType_Table} \<Longrightarrow>
   Value_To v out = (True, NONE)"
  by (cases v) simp_all

theorem unsupported_reads_NONE_witness:
  "GetType (LFunction 3) \<notin> {LuaType_Number, LuaType_Boolean, LuaType_String, LuaType_Table} \<and>
   Value_To (LFunction 3) (INTEGER 9) = (True, NONE)"
  using unsupported_reads_NONE [of "LFunction 3" "INTEGER 9"] by simp

section \<open>Properties of the marshaller\<close>

lemma slot_top: "slot (s\<lparr>stack := st @ [v]\<rparr>) (AbsIndex (s\<lparr>stack := st @ [v]\<rparr>) (- 1)) = Some v"
  by (simp add: slot_def AbsIndex_def)

lemma Push_first:
  assumes "p \<noteq> nullptr" "wrappers s p = None"
  shows "RefCounted_Push T p s =
    s\<lparr>ref_count := (ref_count s)(p := ref_count s p + 1),
      heap := (heap s)(next_addr s \<mapsto> \<lparr>block = RefCountedData p, metatable = Some (chain T)\<rparr>),
      next_addr := Suc (next_addr s),
      stack := stack s @ [LUserData (next_addr s)],
      wrappers := (wrappers s)(p \<mapsto> next_addr s)\<rparr>"
  using assms
  by (simp add: RefCounted_Push_def WrapperTableGet_def NewUserData_def RefCounted_Construct_def
      WrapperTableSet_def SetMetaTable_def slot_def AbsIndex_def)

lemma Push_again:
  assumes "p \<noteq> nullptr" "wrappers s p = Some a"
  shows "RefCounted_Push T p s = s\<lparr>stack := stack s @ [LUserData a]\<rparr>"
  using assms by (simp add: RefCounted_Push_def WrapperTableGet_def)

lemma Push_again_n:
  assumes "p \<noteq> nullptr" "wrappers s p = Some a"
  shows "((RefCounted_Push T p) ^^ n) s = s\<lparr>stack := stack s @ replicate n (LUserData a)\<rparr>"
  using assms
proof (induction n arbitrary: s)
  case 0
  then show ?case by simp
next
  case (Suc n)
  have "((RefCounted_Push T p) ^^ Suc n) s = ((RefCounted_Push T p) ^^ n) (RefCounted_Push T p s)"
    by (simp add: funpow_swap1)
  also have "\<dots> = ((RefCounted_Push T p) ^^ n) (s\<lparr>stack := stack s @ [LUserData a]\<rparr>)"
    using Suc.prems by (simp add: Push_again)
  also have "\<dots> = (s\<lparr>stack := stack s @ [LUserData a]\<rparr>)\<lparr>stack := stack (s\<lparr>stack := stack s @ [LUserData a]\<rparr>) @ replicate n (LUserData a)\<rparr>"
    using Suc.prems by (intro Suc.IH) simp_all
  finally show ?case by (simp add: replicate_append_same)
qed

text \<open>
  Claim C1: for a reference-counted object (a non-null pointer), any number \<open>n + 1\<close> of
  consecutive pushes of the same pointer leaves \<open>n + 1\<close> handles on the stack that are
  the same userdata, and the reference count has grown by exactly one when the pointer
  had no wrapper before the first push (by nothing when it had one, whose creation
  counted already); no other reference count changes.
\<close>

theorem RefCounted_Push_identity:
  assumes "p \<noteq> nullptr"
  shows "\<exists>a. stack (((RefCounted_Push T p) ^^ Suc n) s) = stack s @ replicate (Suc n) (LUserData a) \<and>
             wrappers (((RefCounted_Push T p) ^^ Suc n) s) p = Some a \<and>
             ref_count (((RefCounted_Push T p) ^^ Suc n) s) =
               (ref_count s)(p := ref_count s p + (if wrappers s p = None then 1 else 0))"
proof (cases "wrappers s p")
  case None
  let ?s1 = "RefCounted_Push T p s"
  have 1: "((RefCounted_Push T p) ^^ Suc n) s = ((RefCounted_Push T p) ^^ n) ?s1"
    by (simp add: funpow_swap1)
  have w: "wrappers ?s1 p = Some (next_addr s)" using assms None by (simp add: Push_first)
  have 2: "((RefCounted_Push T p) ^^ n) ?s1 = ?s1\<lparr>stack := stack ?s1 @ replicate n (LUserData (next_addr s))\<rparr>"
    using assms w by (rule Push_again_n)
  have "stack (((RefCounted_Push T p) ^^ Suc n) s) = stack s @ replicate (Suc n) (LUserData (next_addr s)) \<and>
        wrappers (((RefCounted_Push T p) ^^ Suc n) s) p = Some (next_addr s) \<and>
        ref_count (((RefCounted_Push T p) ^^ Suc n) s) = (ref_count s)(p := ref_count s p + 1)"
    unfolding 1 2 using assms None by (simp add: Push_first replicate_append_same)
  then show ?thesis using None by auto
next
  case (Some a)
  have "((RefCounted_Push T p) ^^ Suc n) s = s\<lparr>stack := stack s @ replicate (Suc n) (LUserData a)\<rparr>"
    using assms Some by (rule Push_again_n)
  then show ?thesis using Some by simp
qed

theorem RefCounted_Push_identity_witness:
  "(5::nat) \<noteq> nullptr \<and>
   (\<exists>a. stack (((RefCounted_Push Window 5) ^^ Suc 2) empty_State) =
          [] @ replicate (Suc 2) (LUserData a)) \<and>
   ref_count (((RefCounted_Push Window 5) ^^ Suc 2) empty_State) 5 = 1 \<and>
   ref_count (((RefCounted_Push Window 5) ^^ Suc 2) empty_State) 6 = 0"
  using RefCounted_Push_identity [where p = 5 and s = empty_State and T = Window and n = 2]
  by (auto simp: empty_State_def)

text \<open>
  What holds of claim C5: both readers fail on a block of the wrong size, the reader for
  reference-counted classes fails on a metatable that does not descend from the requested
  class, and the reader for weak pointers fails once the object is destroyed.
\<close>

lemma RefCounted_To_failures:
  assumes "slot s (AbsIndex s index) = Some (LUserData a)" and "heap s a = Some u"
  shows "RawLen u \<noteq> sizeof_ptr \<Longrightarrow> RefCounted_To T s index = None"
    and "metatable u = Some m \<Longrightarrow> \<not> IsMetaTableInheritedFrom (type_name T) m \<Longrightarrow>
         RefCounted_To T s index = None"
  using assms by (simp_all add: RefCounted_To_def)

lemma WeakPtr_To_failures:
  assumes "slot s (AbsIndex s index) = Some (LUserData a)" and "heap s a = Some u"
  shows "RawLen u \<noteq> sizeof_WeakPtr \<Longrightarrow> WeakPtr_To T s index = None"
    and "block u = WeakPtrData p \<Longrightarrow> \<not> alive s p \<Longrightarrow> WeakPtr_To T s index = None"
  using assms by (simp_all add: WeakPtr_To_def)

lemma WeakPtr_Push_Returns:
  "p \<noteq> nullptr \<Longrightarrow>
   WeakPtr_Push T p s =
     Returns (s\<lparr>heap := (heap s)(next_addr s \<mapsto> \<lparr>block = WeakPtrData p, metatable = Some (chain T)\<rparr>),
                next_addr := Suc (next_addr s),
                stack := stack s @ [LUserData (next_addr s)]\<rparr>)"
  by (simp add: WeakPtr_Push_def NewUserData_WeakPtr_def WeakPtr_Construct_def
      SetMetaTable_def slot_def AbsIndex_def)

lemma WeakPtr_To_after_destroy:
  assumes "WeakPtr_Push T' p s = Returns s1"
  shows "WeakPtr_To T (destroy p s1) (- 1) = None"
proof (cases "p = nullptr")
  case True
  then have "WeakPtr_Push T' p s = Undefined (PushNil s)"
    by (simp add: WeakPtr_Push_def NewUserData_WeakPtr_def WeakPtr_Construct_def)
  then show ?thesis using assms by simp
next
  case False
  then have "s1 = s\<lparr>heap := (heap s)(next_addr s \<mapsto> \<lparr>block = WeakPtrData p, metatable = Some (chain T')\<rparr>),
                next_addr := Suc (next_addr s),
                stack := stack s @ [LUserData (next_addr s)]\<rparr>"
    using assms by (simp add: WeakPtr_Push_Returns)
  then show ?thesis
    by (simp add: WeakPtr_To_def destroy_def slot_def AbsIndex_def sizeof_WeakPtr_def)
qed

text \<open>
  Claim C5 has unwrap fail when the handle's type is not a descendant of the requested
  type. The reader for weak pointers never looks at the metatable: a live \<open>Window\<close> handle
  read as a \<open>Tray\<close> is converted, where the reader for reference-counted classes, given
  the same two classes, fails.
\<close>

theorem WeakPtr_To_skips_inheritance_check:
  "\<not> IsMetaTableInheritedFrom (type_name Tray) (chain Window) \<and>
   (case WeakPtr_Push Window 7 empty_State of
      Returns s \<Rightarrow> WeakPtr_To Tray s (- 1) = Some 7
    | Undefined s \<Rightarrow> False) \<and>
   RefCounted_To Tray (RefCounted_Push Window 7 empty_State) (- 1) = None"
  by (simp add: WeakPtr_To_def WeakPtr_Push_def RefCounted_To_def RefCounted_Push_def
      WrapperTableGet_def WrapperTableSet_def RefCounted_Construct_def
      NewUserData_def NewUserData_WeakPtr_def WeakPtr_Construct_def SetMetaTable_def slot_def
      AbsIndex_def sizeof_WeakPtr_def sizeof_ptr_def Let_def empty_State_def Tray_def Window_def)



section \<open>Properties of the table view\<close>

text \<open>
  Claim C6, as stated, has the start of an edit rejected when the row is outside the
  model's bounds. \<^verbatim>\<open>OnBeginEdit\<close> never asks the model: with a model of no rows, row 3 of
  an editable column is accepted and the view leaves the idle state.
\<close>

theorem edit_lifecycle_counterexample:
  "GetModel (one_column Edit 80 (Some no_rows)) = Some no_rows \<and>
   \<not> (3 < GetRowCount no_rows) \<and>
   idle (one_column Edit 80 (Some no_rows)) \<and>
   \<not> fst (OnBeginEdit (0, 3) 3 (one_column Edit 80 (Some no_rows))) \<and>
   \<not> idle (snd (OnBeginEdit (0, 3) 3 (one_column Edit 80 (Some no_rows))))"
  by (simp add: one_column_def no_rows_def OnBeginEdit_def GetColumnCount_def idle_def)

text \<open>
  Claim C6, amended: \<^verbatim>\<open>OnBeginEdit\<close> rejects the edit and leaves the view as it is when
  the column under the cursor is outside the view's columns, the row under the cursor
  is not the row of the notification, or the column is not of the editable type, and
  accepts it otherwise, recording the cell; with a model attached, committing an edit
  makes exactly one \<^verbatim>\<open>SetValue\<close> call, with the new text, at the cell under edit; a
  cancelled edit makes no call; and the view is idle after either.
\<close>

theorem edit_lifecycle:
  "(fst hit < 0 \<or> GetColumnCount t \<le> fst hit \<or> row \<noteq> snd hit \<or>
      opt_type (columns t ! nat (fst hit)) \<noteq> Edit \<longrightarrow> OnBeginEdit hit row t = (True, t)) \<and>
   (0 \<le> fst hit \<and> fst hit < GetColumnCount t \<and> row = snd hit \<and>
      opt_type (columns t ! nat (fst hit)) = Edit \<longrightarrow>
      \<not> fst (OnBeginEdit hit row t) \<and> edit_row (snd (OnBeginEdit hit row t)) = row \<and>
      edit_column (snd (OnBeginEdit hit row t)) = fst hit) \<and>
   (GetModel t = Some m \<longrightarrow>
      calls (snd (OnEndEdit (Some new_text) row t)) =
        calls t @ [Model_SetValue (edit_column t) (edit_row t) (STRING new_text)]) \<and>
   calls (snd (OnEndEdit None row t)) = calls t \<and>
   idle (snd (OnEndEdit pszText row t))"
  by (cases hit)
    (auto simp: OnBeginEdit_def OnEndEdit_def call_def idle_def Let_def split: option.splits)

theorem edit_lifecycle_witness:
  "OnBeginEdit (0, 2) 2 (one_column Text 80 (Some no_rows)) = (True, one_column Text 80 (Some no_rows)) \<and>
   \<not> fst (OnBeginEdit (0, 2) 2 (one_column Edit 80 (Some no_rows))) \<and>
   calls (snd (OnEndEdit (Some ''new'') 2 (snd (OnBeginEdit (0, 2) 2 (one_column Edit 80 (Some no_rows)))))) =
     [Model_SetValue 0 2 (STRING ''new'')] \<and>
   calls (snd (OnEndEdit None 2 (snd (OnBeginEdit (0, 2) 2 (one_column Edit 80 (Some no_rows)))))) = []"
  using edit_lifecycle [where hit = "(0, 2)" and row = 2 and t = "one_column Text 80 (Some no_rows)"
      and m = no_rows and new_text = "''new''" and pszText = None]
    edit_lifecycle [where hit = "(0, 2)" and row = 2 and t = "one_column Edit 80 (Some no_rows)"
      and m = no_rows and new_text = "''new''" and pszText = None]
    edit_lifecycle [where hit = "(0, 2)" and row = 2
      and t = "snd (OnBeginEdit (0, 2) 2 (one_column Edit 80 (Some no_rows)))"
      and m = no_rows and new_text = "''new''" and pszText = None]
  by (simp add: one_column_def GetColumnCount_def OnBeginEdit_def)

text \<open>
  Claim C7: in a checkbox column of the Win32 view, a click inside the checkbox bounds,
  with a model attached whose value at the cell is a boolean \<open>b\<close>, writes \<open>\<not> b\<close> back
  with \<^verbatim>\<open>SetValue\<close> and then emits \<^verbatim>\<open>on_toggle_checkbox\<close>, once each and in this order, and
  returns \<^verbatim>\<open>TRUE\<close>; a click outside the bounds changes nothing and notifies nobody. The
  GTK handler of the \<^verbatim>\<open>toggled\<close> signal does the same write and notification.
\<close>

theorem checkbox_toggle:
  assumes "0 \<le> column" and "column < GetColumnCount t"
    and "opt_type (columns t ! nat column) = Checkbox"
  shows "(Contains (GetCheckboxBounds t column row) point \<and> GetModel t = Some m \<and>
            GetValue m column row = BOOLEAN b \<longrightarrow>
            OnItemClick point column row t =
              Some (True, t\<lparr>calls := calls t @
                      [Model_SetValue column row (BOOLEAN (\<not> b)),
                       Emit_on_toggle_checkbox column row]\<rparr>)) \<and>
         (\<not> Contains (GetCheckboxBounds t column row) point \<longrightarrow>
            OnItemClick point column row t = Some (False, t)) \<and>
         (gtk_GetModel g = Some m \<and> GetValue m column row = BOOLEAN b \<longrightarrow>
            OnCellToggled column row g =
              Some (g\<lparr>gtk_calls := gtk_calls g @
                      [Model_SetValue column row (BOOLEAN (\<not> b)),
                       Emit_on_toggle_checkbox column row]\<rparr>))"
  using assms by (simp add: OnItemClick_def OnCellToggled_def call_def)

theorem checkbox_toggle_witness:
  "Contains (GetCheckboxBounds (one_column Checkbox 100 (Some all_checked)) 0 1) (50, 30) \<and>
   OnItemClick (50, 30) 0 1 (one_column Checkbox 100 (Some all_checked)) =
     Some (True, (one_column Checkbox 100 (Some all_checked))
       \<lparr>calls := [Model_SetValue 0 1 (BOOLEAN False), Emit_on_toggle_checkbox 0 1]\<rparr>) \<and>
   \<not> Contains (GetCheckboxBounds (one_column Checkbox 100 (Some all_checked)) 0 1) (5, 30) \<and>
   OnItemClick (5, 30) 0 1 (one_column Checkbox 100 (Some all_checked)) =
     Some (False, one_column Checkbox 100 (Some all_checked)) \<and>
   OnCellToggled 0 1 (gtk_table (Some all_checked)) =
     Some ((gtk_table (Some all_checked))
       \<lparr>gtk_calls := [Model_SetValue 0 1 (BOOLEAN False), Emit_on_toggle_checkbox 0 1]\<rparr>)"
proof -
  let ?t = "one_column Checkbox 100 (Some all_checked)"
  have a: "(0::int) \<le> 0" by simp
  have b: "0 < GetColumnCount ?t" by (simp add: one_column_def GetColumnCount_def)
  have c: "opt_type (columns ?t ! nat 0) = Checkbox" by (simp add: one_column_def)
  have m: "GetModel ?t = Some all_checked" by (simp add: one_column_def)
  have v: "GetValue all_checked 0 1 = BOOLEAN True" by (simp add: all_checked_def)
  have i: "Contains (GetCheckboxBounds ?t 0 1) (50, 30)"
    by (simp add: one_column_def GetCheckboxBounds_def Contains_def int_div_def)
  have j: "\<not> Contains (GetCheckboxBounds ?t 0 1) (5, 30)"
    by (simp add: one_column_def GetCheckboxBounds_def Contains_def int_div_def)
  have g: "gtk_GetModel (gtk_table (Some all_checked)) = Some all_checked" by (simp add: gtk_table_def)
  have k: "calls ?t = []" by (simp add: one_column_def)
  have l: "gtk_calls (gtk_table (Some all_checked)) = []" by (simp add: gtk_table_def)
  show ?thesis
    using checkbox_toggle [OF a b c, where row = 1 and point = "(50, 30)" and m = all_checked
        and b = True and g = "gtk_table (Some all_checked)"]
      checkbox_toggle [OF a b c, where row = 1 and point = "(5, 30)" and m = all_checked
        and b = True and g = "gtk_table (Some all_checked)"]
      i j m v g k l by simp
qed












text \<open>The GTK view sets the configured width on the column as it is, and none when it is \<open>-1\<close>.\<close>

lemma AddColumnWithOptions_gtk_width:
  "snd (last (tree_columns (AddColumnWithOptions_gtk options g))) =
     (if opt_width options \<noteq> - 1 then Some (opt_width options) else None)"
  by (simp add: AddColumnWithOptions_gtk_def Let_def)




end
